theory Spec2Isabelle
  imports Complex_Main "HOL-Library.Multiset" "HOL-Library.AList"
begin

section \<open>sgnlp senticnet\_gcn utilities: data preparation for aspect-based sentiment analysis\<close>

text \<open>
  A shallow embedding of \<^verbatim>\<open>src/sgnlp/models/senticnet_gcn/utils.py\<close>.
  Python exceptions are values of the type \<open>error\<close>; a function that may raise returns
  \<open>error + 'a\<close>, with \<open>Inl\<close> for the exception.
\<close>

datatype error = KeyError | ValueError | IndexError | ZeroDivisionError | OverflowError

subsection \<open>ABSADataset (lines 219-231)\<close>

text \<open>
  \<^verbatim>\<open>
  class ABSADataset(object):
      def __init__(self, data):      self.data = data
      def __getitem__(self, index):  return self.data[index]
      def __len__(self):             return len(self.data)
  \<close>
  \<open>self.data\<close> is the Python list the reader builds. Indexing a Python list with an
  integer \<open>i\<close> reads position \<open>i\<close> when \<open>0 \<le> i < n\<close>, position \<open>n + i\<close> when
  \<open>-n \<le> i < 0\<close>, and raises IndexError otherwise.
\<close>

record 'x ABSADataset =
  data :: "'x list"

definition ABSADataset_init :: "'x list \<Rightarrow> 'x ABSADataset" where
  "ABSADataset_init d = \<lparr>data = d\<rparr>"

definition resolve_index :: "nat \<Rightarrow> int \<Rightarrow> nat option" where
  "resolve_index n i =
     (if 0 \<le> i \<and> i < int n then Some (nat i)
      else if - int n \<le> i \<and> i < 0 then Some (nat (int n + i))
      else None)"

definition list_getitem :: "'x list \<Rightarrow> int \<Rightarrow> error + 'x" where
  "list_getitem xs i =
     (case resolve_index (length xs) i of
        None \<Rightarrow> Inl IndexError
      | Some k \<Rightarrow> Inr (xs ! k))"

definition getitem :: "'x ABSADataset \<Rightarrow> int \<Rightarrow> error + 'x" where
  "getitem self index = list_getitem (data self) index"

definition len :: "'x ABSADataset \<Rightarrow> nat" where
  "len self = length (data self)"

subsection \<open>Sequencing of fallible steps\<close>

definition bindE :: "error + 'a \<Rightarrow> ('a \<Rightarrow> error + 'b) \<Rightarrow> error + 'b" where
  "bindE m f = (case m of Inl e \<Rightarrow> Inl e | Inr x \<Rightarrow> f x)"

text \<open>A list comprehension whose body may raise: the first exception ends it.\<close>

fun mapE :: "('a \<Rightarrow> error + 'b) \<Rightarrow> 'a list \<Rightarrow> error + 'b list" where
  "mapE f [] = Inr []"
| "mapE f (x # xs) = bindE (f x) (\<lambda>y. bindE (mapE f xs) (\<lambda>ys. Inr (y # ys)))"

subsection \<open>Python dictionaries, slices and tokenizer encodings\<close>

text \<open>
  A Python dict is an association list in insertion order. \<open>d[k]\<close> raises KeyError on a
  missing key; \<open>d[k] = v\<close> replaces the value of an existing key in place and appends a new
  key at the end; \<open>len(d)\<close> is the number of keys.

  A tokenizer output (\<open>BatchEncoding\<close>, a \<open>UserDict\<close>) is such a dict from the names
  \<open>input_ids\<close>, \<open>token_type_ids\<close>, \<open>attention_mask\<close> to integer sequences. A
  \<open>torch.tensor\<close> built from an integer list is modelled by the list of its elements, so
  \<open>len\<close> of the tensor is the length of that list.
\<close>

type_synonym encoding = "(string \<times> int list) list"

definition dict_getitem :: "('k \<times> 'v) list \<Rightarrow> 'k \<Rightarrow> error + 'v" where
  "dict_getitem d k = (case map_of d k of None \<Rightarrow> Inl KeyError | Some v \<Rightarrow> Inr v)"

definition dict_setitem :: "('k \<times> 'v) list \<Rightarrow> 'k \<Rightarrow> 'v \<Rightarrow> ('k \<times> 'v) list" where
  "dict_setitem d k v = AList.update k v d"

definition dict_len :: "('k \<times> 'v) list \<Rightarrow> nat" where
  "dict_len d = length (remdups (map fst d))"

text \<open>
  \<open>xs[lo:hi]\<close>: a negative bound counts from the end, and both bounds are clamped to the
  list.
\<close>

definition clamp_index :: "nat \<Rightarrow> int \<Rightarrow> nat" where
  "clamp_index n i = (if i < 0 then nat (max 0 (int n + i)) else min n (nat i))"

definition py_slice :: "'x list \<Rightarrow> int \<Rightarrow> int \<Rightarrow> 'x list" where
  "py_slice xs lo hi =
     (let a = clamp_index (length xs) lo; b = clamp_index (length xs) hi
      in take (b - a) (drop a xs))"

subsection \<open>Examples and batch dictionaries\<close>

text \<open>
  An example is the dict built at lines 276-284 of the reader: four encodings, the polarity
  label and two adjacency matrices (numpy arrays, here lists of rows). The four encodings of
  an example, and the encodings of different examples, are distinct objects (each comes from
  its own tokenizer call, lines 268-271), so an in-place update of one of them is modelled
  by returning the updated encoding.

  \<open>field\<close> names the four tokenized fields; the sort key of the iterator is one of them
  (\<open>text_indices\<close> by default).
\<close>

type_synonym 'a matrix = "'a list list"

record 'a item =
  text_indices :: encoding
  context_indices :: encoding
  aspect_indices :: encoding
  left_indices :: encoding
  polarity :: int
  dependency_graph :: "'a matrix"
  dependency_tree :: "'a matrix"

datatype field = TextIndices | ContextIndices | AspectIndices | LeftIndices

fun item_getitem :: "'a item \<Rightarrow> field \<Rightarrow> encoding" where
  "item_getitem x TextIndices = text_indices x"
| "item_getitem x ContextIndices = context_indices x"
| "item_getitem x AspectIndices = aspect_indices x"
| "item_getitem x LeftIndices = left_indices x"

text \<open>The dictionary returned by \<open>pad_data\<close> (lines 202-210).\<close>

record 'a batch =
  batch_text_indices :: "encoding list"
  batch_context_indices :: "encoding list"
  batch_aspect_indices :: "encoding list"
  batch_left_indices :: "encoding list"
  batch_polarity :: "int list"
  batch_dependency_graph :: "'a matrix list"
  batch_dependency_tree :: "'a matrix list"

fun batch_getitem :: "'a batch \<Rightarrow> field \<Rightarrow> encoding list" where
  "batch_getitem b TextIndices = batch_text_indices b"
| "batch_getitem b ContextIndices = batch_context_indices b"
| "batch_getitem b AspectIndices = batch_aspect_indices b"
| "batch_getitem b LeftIndices = batch_left_indices b"

subsection \<open>BucketIterator.pad\_batch\_encoding (lines 140-147)\<close>

text \<open>
  \<^verbatim>\<open>
  input_ids_pad = [0] * (max_len - len(data["input_ids"]))
  token_type_ids_pad = input_ids_pad.copy()
  attention_mask_pad = [1] * (max_len - len(data["attention_mask"]))
  data["input_ids"] = torch.tensor(data["input_ids"] + input_ids_pad)
  data["token_type_ids"] = torch.tensor(data["token_type_ids"] + token_type_ids_pad)
  data["attention_mask_pad"] = torch.tensor(data["attention_mask"] + attention_mask_pad)
  return data
  \<close>
  \<open>[0] * k\<close> is the empty list when \<open>k \<le> 0\<close>. The encoding is updated in place and
  returned; the model returns the updated encoding.
\<close>

definition pad_batch_encoding :: "encoding \<Rightarrow> int \<Rightarrow> error + encoding" where
  "pad_batch_encoding d max_len =
     bindE (dict_getitem d ''input_ids'') (\<lambda>ids.
       let input_ids_pad = replicate (nat (max_len - int (length ids))) (0::int);
           token_type_ids_pad = input_ids_pad
       in bindE (dict_getitem d ''attention_mask'') (\<lambda>mask.
            let attention_mask_pad = replicate (nat (max_len - int (length mask))) (1::int);
                d1 = dict_setitem d ''input_ids'' (ids @ input_ids_pad)
            in bindE (dict_getitem d1 ''token_type_ids'') (\<lambda>tti.
                 let d2 = dict_setitem d1 ''token_type_ids'' (tti @ token_type_ids_pad)
                 in bindE (dict_getitem d2 ''attention_mask'') (\<lambda>mask2.
                      Inr (dict_setitem d2 ''attention_mask_pad'' (mask2 @ attention_mask_pad))))))"

subsection \<open>BucketIterator.pad\_data (lines 149-210)\<close>

text \<open>
  \<open>np.pad(m, ((0, p), (0, p)), "constant")\<close> on a two-dimensional array appends \<open>p\<close>
  zero rows and \<open>p\<close> zero columns; a negative \<open>p\<close> raises ValueError.
\<close>

definition np_pad :: "'a::zero matrix \<Rightarrow> int \<Rightarrow> error + 'a matrix" where
  "np_pad m p =
     (if p < 0 then Inl ValueError
      else let k = nat p; cols = (case m of [] \<Rightarrow> 0 | r # _ \<Rightarrow> length r)
           in Inr (map (\<lambda>r. r @ replicate k 0) m @ replicate k (replicate (cols + k) 0)))"

text \<open>
  Line 166: \<open>max_len = max([len(t[self.sort_key]["input_ids"]) for t in batch_data])\<close>;
  \<open>max\<close> of an empty list raises ValueError.
\<close>

definition max_len_of :: "field \<Rightarrow> 'a item list \<Rightarrow> error + int" where
  "max_len_of sk batch_data =
     bindE (mapE (\<lambda>t. bindE (dict_getitem (item_getitem t sk) ''input_ids'')
                         (\<lambda>ids. Inr (int (length ids)))) batch_data)
       (\<lambda>ls. case ls of [] \<Rightarrow> Inl ValueError | l # ls' \<Rightarrow> Inr (fold max ls' l))"

definition empty_batch :: "'a batch" where
  "empty_batch = \<lparr>batch_text_indices = [], batch_context_indices = [],
     batch_aspect_indices = [], batch_left_indices = [], batch_polarity = [],
     batch_dependency_graph = [], batch_dependency_tree = []\<rparr>"

text \<open>
  The body of the loop (lines 169-201) on one item, appending to the seven accumulators.
  \<open>text_indices\<close> is the object that the first \<open>pad_batch_encoding\<close> call has just updated,
  so \<open>len(text_indices["input_ids"])\<close> in the two \<open>np.pad\<close> calls reads the padded sequence.
\<close>

definition pad_item :: "int \<Rightarrow> 'a::zero item \<Rightarrow> 'a batch \<Rightarrow> error + 'a batch" where
  "pad_item max_len x acc =
     bindE (pad_batch_encoding (text_indices x) max_len) (\<lambda>text'.
     bindE (pad_batch_encoding (context_indices x) max_len) (\<lambda>context'.
     bindE (pad_batch_encoding (aspect_indices x) max_len) (\<lambda>aspect'.
     bindE (pad_batch_encoding (left_indices x) max_len) (\<lambda>left'.
     bindE (dict_getitem text' ''input_ids'') (\<lambda>ids'.
     bindE (np_pad (dependency_graph x) (max_len - int (length ids'))) (\<lambda>g.
     bindE (np_pad (dependency_tree x) (max_len - int (length ids'))) (\<lambda>t.
       Inr \<lparr>batch_text_indices = batch_text_indices acc @ [text'],
            batch_context_indices = batch_context_indices acc @ [context'],
            batch_aspect_indices = batch_aspect_indices acc @ [aspect'],
            batch_left_indices = batch_left_indices acc @ [left'],
            batch_polarity = batch_polarity acc @ [polarity x],
            batch_dependency_graph = batch_dependency_graph acc @ [g],
            batch_dependency_tree = batch_dependency_tree acc @ [t]\<rparr>)))))))"

text \<open>
  The \<open>for item in batch_data\<close> loop. The \<open>return\<close> of lines 202-210 is inside the loop
  body, so the first iteration returns the dictionary; a loop over no item falls through and
  the method returns \<open>None\<close>.
\<close>

fun pad_data_loop :: "int \<Rightarrow> 'a::zero item list \<Rightarrow> 'a batch \<Rightarrow> error + 'a batch option" where
  "pad_data_loop max_len [] acc = Inr None"
| "pad_data_loop max_len (x # rest) acc = bindE (pad_item max_len x acc) (\<lambda>acc'. Inr (Some acc'))"

definition pad_data :: "field \<Rightarrow> 'a::zero item list \<Rightarrow> error + 'a batch option" where
  "pad_data sk batch_data =
     bindE (max_len_of sk batch_data) (\<lambda>max_len. pad_data_loop max_len batch_data empty_batch)"

subsection \<open>BucketIterator.sort\_and\_pad and the constructor (lines 117-138)\<close>

text \<open>
  \<^verbatim>\<open>
  num_batch = int(math.ceil(len(data) / batch_size))
  sorted_data = sorted(data, key=lambda x: len(x[self.sort_key])) if self.sort else data
  batches = [self.pad_data(sorted_data[i * batch_size : (i + 1) * batch_size]) for i in range(num_batch)]
  \<close>
  \<open>len(data) / batch_size\<close> raises ZeroDivisionError for a zero batch size; the ceiling of
  the quotient is \<open>- ((- n) div b)\<close> (the quotient is computed in double precision, which is
  exact enough for this below \<open>2^53\<close> examples). \<open>sorted\<close> is stable, as \<open>sort_key\<close> is; its
  key is \<open>len\<close> of the encoding \<open>x[self.sort_key]\<close>, a dictionary. \<open>range\<close> of a number
  that is not positive is empty.
\<close>

definition sort_and_pad ::
  "field \<Rightarrow> bool \<Rightarrow> 'a::zero item ABSADataset \<Rightarrow> int \<Rightarrow> error + 'a batch option list" where
  "sort_and_pad sk srt dat batch_size =
     (if batch_size = 0 then Inl ZeroDivisionError
      else let num_batch = nat (- ((- int (len dat)) div batch_size));
               sorted_data = (if srt then sort_key (\<lambda>x. dict_len (item_getitem x sk)) (data dat)
                              else data dat)
           in mapE (\<lambda>i. pad_data sk (py_slice sorted_data (int i * batch_size)
                                        ((int i + 1) * batch_size)))
                [0..<num_batch])"

record 'a BucketIterator =
  shuffle_attr :: bool
  sort_attr :: bool
  sort_key_attr :: field
  batches :: "'a batch option list"
  batch_len :: nat

definition BucketIterator_init ::
  "'a::zero item ABSADataset \<Rightarrow> int \<Rightarrow> field \<Rightarrow> bool \<Rightarrow> bool \<Rightarrow> error + 'a BucketIterator" where
  "BucketIterator_init dat batch_size sk shuf srt =
     bindE (sort_and_pad sk srt dat batch_size) (\<lambda>bs.
       Inr \<lparr>shuffle_attr = shuf, sort_attr = srt, sort_key_attr = sk,
            batches = bs, batch_len = length bs\<rparr>)"

subsection \<open>BucketIterator.\_\_iter\_\_ (lines 212-216)\<close>

text \<open>
  \<^verbatim>\<open>
  if self.shuffle:
      random.shuffle(self.batches)
  for idx in range(self.batch_len):
      yield self.batches[idx]
  \<close>
  \<open>random.shuffle(x)\<close> is the loop
  \<^verbatim>\<open>
  for i in reversed(range(1, len(x))):
      j = randbelow(i + 1)
      x[i], x[j] = x[j], x[i]
  \<close>
  The state of the random generator is the sequence of its future raw draws; \<open>randbelow n\<close>
  consumes one and returns a number below \<open>n\<close>. A traversal is the list of the items yielded,
  the IndexError that ends it if \<open>batch_len\<close> exceeds the list, the iterator with its
  \<open>batches\<close> list as the shuffle left it, and the generator.
\<close>

type_synonym rng = "nat \<Rightarrow> nat"

definition randbelow :: "nat \<Rightarrow> rng \<Rightarrow> nat \<times> rng" where
  "randbelow n g = (g 0 mod n, \<lambda>k. g (Suc k))"

fun shuffle_loop :: "nat \<Rightarrow> 'x list \<Rightarrow> rng \<Rightarrow> 'x list \<times> rng" where
  "shuffle_loop 0 xs g = (xs, g)"
| "shuffle_loop (Suc i') xs g =
     (let i = Suc i'; (j, g') = randbelow (i + 1) g
      in shuffle_loop i' (xs[i := xs ! j, j := xs ! i]) g')"

definition random_shuffle :: "'x list \<Rightarrow> rng \<Rightarrow> 'x list \<times> rng" where
  "random_shuffle xs g = shuffle_loop (length xs - 1) xs g"

definition iter ::
  "'a BucketIterator \<Rightarrow> rng \<Rightarrow> ('a batch option list \<times> error option) \<times> 'a BucketIterator \<times> rng" where
  "iter self g =
     (let (bs, g') = (if shuffle_attr self then random_shuffle (batches self) g
                      else (batches self, g));
          yielded = map (\<lambda>idx. bs ! idx) [0..<min (batch_len self) (length bs)];
          raised = (if length bs < batch_len self then Some IndexError else None)
      in ((yielded, raised), self\<lparr>batches := bs\<rparr>, g'))"

subsection \<open>Python strings\<close>

text \<open>
  Text is modelled as ASCII: a \<open>char\<close> above 127 stands for a character that is neither
  whitespace nor cased. \<open>str.isspace\<close> holds of the codes 9 to 13, 28 to 31 and 32;
  \<open>str.lower\<close> maps \<open>A\<close>..\<open>Z\<close> to \<open>a\<close>..\<open>z\<close>; \<open>str.strip\<close> removes whitespace
  at both ends; \<open>str.partition(sep)\<close> cuts at the first occurrence of \<open>sep\<close> and returns
  the whole string and two empty strings when there is none.
\<close>

definition is_space :: "char \<Rightarrow> bool" where
  "is_space c = (let n = (of_char c :: nat) in (9 \<le> n \<and> n \<le> 13) \<or> (28 \<le> n \<and> n \<le> 32))"

definition lower_char :: "char \<Rightarrow> char" where
  "lower_char c = (let n = (of_char c :: nat) in if 65 \<le> n \<and> n \<le> 90 then char_of (n + 32) else c)"

definition py_lower :: "string \<Rightarrow> string" where
  "py_lower s = map lower_char s"

definition py_rstrip :: "string \<Rightarrow> string" where
  "py_rstrip s = rev (dropWhile is_space (rev s))"

definition py_strip :: "string \<Rightarrow> string" where
  "py_strip s = dropWhile is_space (py_rstrip s)"

fun find_sep :: "string \<Rightarrow> string \<Rightarrow> (string \<times> string) option" where
  "find_sep sep [] = (if sep = [] then Some ([], []) else None)"
| "find_sep sep (c # cs) =
     (if take (length sep) (c # cs) = sep then Some ([], drop (length sep) (c # cs))
      else map_option (\<lambda>(b, a). (c # b, a)) (find_sep sep cs))"

definition py_partition :: "string \<Rightarrow> string \<Rightarrow> string \<times> string \<times> string" where
  "py_partition s sep = (case find_sep sep s of None \<Rightarrow> (s, [], []) | Some (b, a) \<Rightarrow> (b, sep, a))"

text \<open>
  \<open>int(s)\<close> on a string: surrounding whitespace is dropped, then an optional sign and a
  non-empty run of decimal digits, in which single underscores may separate digits; anything
  else raises ValueError.
\<close>

definition is_digit :: "char \<Rightarrow> bool" where
  "is_digit c = (let n = (of_char c :: nat) in 48 \<le> n \<and> n \<le> 57)"

definition digit_val :: "char \<Rightarrow> nat" where
  "digit_val c = of_char c - 48"

fun parse_digits :: "nat \<Rightarrow> string \<Rightarrow> nat option" where
  "parse_digits acc [] = Some acc"
| "parse_digits acc [c] = (if is_digit c then Some (10 * acc + digit_val c) else None)"
| "parse_digits acc (c # d # cs) =
     (if is_digit c then parse_digits (10 * acc + digit_val c) (d # cs)
      else if c = CHR ''_'' \<and> is_digit d then parse_digits (10 * acc + digit_val d) cs
      else None)"

definition parse_nat :: "string \<Rightarrow> nat option" where
  "parse_nat s = (case s of [] \<Rightarrow> None
                  | c # cs \<Rightarrow> if is_digit c then parse_digits (digit_val c) cs else None)"

definition py_int :: "string \<Rightarrow> error + int" where
  "py_int s =
     (let r = (case py_strip s of
                 [] \<Rightarrow> None
               | c # cs \<Rightarrow> if c = CHR ''-'' then map_option (\<lambda>n. - int n) (parse_nat cs)
                           else if c = CHR ''+'' then map_option int (parse_nat cs)
                           else map_option int (parse_nat (c # cs)))
      in case r of None \<Rightarrow> Inl ValueError | Some v \<Rightarrow> Inr v)"

subsection \<open>ABSADatasetReader.\_\_read\_data\_\_ (lines 252-286)\<close>

text \<open>
  The inputs are the lines of the raw file as \<open>readlines\<close> returns them, the two unpickled
  mappings from line index to matrix, and the tokenizer, a function from a text to an
  encoding. One iteration of the loop, for the line index \<open>i\<close>:
  \<^verbatim>\<open>
  text_left, _, text_right = [s.lower().strip() for s in lines[i].partition("$T$")]
  aspect = lines[i + 1].lower().strip()
  polarity = lines[i + 2].lower().strip()
  text_indices = tokenizer(f"{text_left} {aspect} {text_right}")
  context_indices = tokenizer(f"{text_left} {text_right}")
  aspect_indices = tokenizer(aspect)
  left_indices = tokenizer(text_left)
  polarity = int(polarity) + 1
  dependency_graph = idx2graph[i]
  dependency_tree = idx2tree[i]
  \<close>
\<close>

definition read_record ::
  "(string \<Rightarrow> encoding) \<Rightarrow> string list \<Rightarrow> (nat \<rightharpoonup> 'a matrix) \<Rightarrow> (nat \<rightharpoonup> 'a matrix) \<Rightarrow> nat
   \<Rightarrow> error + 'a item" where
  "read_record tokenizer lines idx2graph idx2tree i =
     bindE (list_getitem lines (int i)) (\<lambda>line0.
       let (l, m, r) = py_partition line0 ''$T$'';
           text_left = py_strip (py_lower l);
           text_right = py_strip (py_lower r)
       in bindE (list_getitem lines (int i + 1)) (\<lambda>line1.
            let aspect = py_strip (py_lower line1)
            in bindE (list_getitem lines (int i + 2)) (\<lambda>line2.
                 let polarity_text = py_strip (py_lower line2);
                     text_enc = tokenizer (text_left @ '' '' @ aspect @ '' '' @ text_right);
                     context_enc = tokenizer (text_left @ '' '' @ text_right);
                     aspect_enc = tokenizer aspect;
                     left_enc = tokenizer text_left
                 in bindE (py_int polarity_text) (\<lambda>p.
                    bindE (case idx2graph i of None \<Rightarrow> Inl KeyError | Some g \<Rightarrow> Inr g) (\<lambda>g.
                    bindE (case idx2tree i of None \<Rightarrow> Inl KeyError | Some t \<Rightarrow> Inr t) (\<lambda>t.
                      Inr \<lparr>text_indices = text_enc, context_indices = context_enc,
                           aspect_indices = aspect_enc, left_indices = left_enc,
                           polarity = p + 1, dependency_graph = g, dependency_tree = t\<rparr>))))))"

text \<open>\<open>for i in range(0, len(lines), 3)\<close>: the indices \<open>0, 3, 6, ...\<close> below \<open>len(lines)\<close>.\<close>

definition read_data ::
  "(string \<Rightarrow> encoding) \<Rightarrow> string list \<Rightarrow> (nat \<rightharpoonup> 'a matrix) \<Rightarrow> (nat \<rightharpoonup> 'a matrix)
   \<Rightarrow> error + 'a item list" where
  "read_data tokenizer lines idx2graph idx2tree =
     mapE (read_record tokenizer lines idx2graph idx2tree)
       (map (\<lambda>k. 3 * k) [0..<(length lines + 2) div 3])"

subsection \<open>load\_word\_vec (lines 52-71)\<close>

text \<open>
  \<open>str.split()\<close> cuts a string at its runs of whitespace and returns the pieces between
  them, none of them empty; \<open>sep.join(xs)\<close> concatenates with the separator in between.
\<close>

fun split_loop :: "string \<Rightarrow> string \<Rightarrow> string list" where
  "split_loop cur [] = (if cur = [] then [] else [rev cur])"
| "split_loop cur (c # cs) =
     (if is_space c then (if cur = [] then split_loop [] cs else rev cur # split_loop [] cs)
      else split_loop (c # cur) cs)"

definition py_split :: "string \<Rightarrow> string list" where
  "py_split s = split_loop [] s"

fun py_join :: "string \<Rightarrow> string list \<Rightarrow> string" where
  "py_join sep [] = []"
| "py_join sep [x] = x"
| "py_join sep (x # y # ys) = x @ sep @ py_join sep (y # ys)"

text \<open>
  \<open>tokens[:-d]\<close> and \<open>tokens[-d:]\<close> for \<open>d \<ge> 0\<close>: since \<open>-0\<close> is \<open>0\<close>, the first is
  empty and the second the whole list when \<open>d = 0\<close>.
\<close>

definition all_but_last :: "nat \<Rightarrow> 'x list \<Rightarrow> 'x list" where
  "all_but_last d xs = (if d = 0 then [] else take (length xs - d) xs)"

definition last_n :: "nat \<Rightarrow> 'x list \<Rightarrow> 'x list" where
  "last_n d xs = (if d = 0 then xs else drop (length xs - d) xs)"

text \<open>
  Line 67-68: \<open>tokens = line.rstrip().split()\<close>;
  \<open>word, vec = " ".join(tokens[:-embed_dim]), tokens[-embed_dim:]\<close>.
\<close>

definition line_word :: "nat \<Rightarrow> string \<Rightarrow> string" where
  "line_word embed_dim line = py_join '' '' (all_but_last embed_dim (py_split (py_rstrip line)))"

definition line_vec :: "nat \<Rightarrow> string \<Rightarrow> string list" where
  "line_vec embed_dim line = last_n embed_dim (py_split (py_rstrip line))"

text \<open>
  \<open>np.asarray(vec, dtype="float32")\<close> reads every token as a number and raises ValueError
  on a token that is none. The reading of one token is a parameter \<open>parse_float\<close>, and the
  type \<open>'a\<close> of the matrix entries stands for the floating-point numbers.
\<close>

definition np_asarray :: "(string \<Rightarrow> 'a option) \<Rightarrow> string list \<Rightarrow> error + 'a list" where
  "np_asarray parse_float vec =
     mapE (\<lambda>t. case parse_float t of None \<Rightarrow> Inl ValueError | Some v \<Rightarrow> Inr v) vec"

text \<open>
  The vocabulary is a dict from word to index, given by its items in insertion order. The
  loop over the lines of the vector file keeps, for a word of the vocabulary, the vector of
  the line read last.
\<close>

type_synonym vocab = "(string \<times> nat) list"

fun load_loop ::
  "(string \<Rightarrow> 'a option) \<Rightarrow> vocab \<Rightarrow> nat \<Rightarrow> string list \<Rightarrow> (string \<rightharpoonup> 'a list)
   \<Rightarrow> error + (string \<rightharpoonup> 'a list)" where
  "load_loop parse_float vocab embed_dim [] word_vec = Inr word_vec"
| "load_loop parse_float vocab embed_dim (line # rest) word_vec =
     (let word = line_word embed_dim line; vec = line_vec embed_dim line
      in if word \<in> set (map fst vocab)
         then bindE (np_asarray parse_float vec) (\<lambda>v.
                load_loop parse_float vocab embed_dim rest (word_vec(word \<mapsto> v)))
         else load_loop parse_float vocab embed_dim rest word_vec)"

definition load_word_vec ::
  "(string \<Rightarrow> 'a option) \<Rightarrow> string list \<Rightarrow> vocab \<Rightarrow> nat \<Rightarrow> error + (string \<rightharpoonup> 'a list)" where
  "load_word_vec parse_float file_lines vocab embed_dim =
     load_loop parse_float vocab embed_dim file_lines Map.empty"

subsection \<open>build\_embedding\_matrix (lines 74-109)\<close>

text \<open>
  \<^verbatim>\<open>
  embedding_matrix = np.zeros((len(vocab), embed_dim))
  embedding_matrix[1, :] = np.random.uniform(-1 / np.sqrt(embed_dim), 1 / np.sqrt(embed_dim), (1, embed_dim))
  word_vec = load_word_vec(word_vec_file_path, vocab, embed_dim)
  for word, idx in vocab.items():
      vec = word_vec.get(word)
      if vec is not None:
          embedding_matrix[idx] = vec
  \<close>
  The matrix is the list of its rows; its entries are real numbers, which stand for the
  floating-point numbers of numpy. A store \<open>embedding_matrix[idx] = vec\<close> raises IndexError
  when \<open>idx\<close> is not a row, copies a vector of length \<open>embed_dim\<close>, broadcasts a vector
  of length 1 over the row, and raises ValueError for any other length. The store into row 1
  raises IndexError when the vocabulary has fewer than two words. Saving the matrix to a file
  does not change the result and is left out.

  \<open>np.random.uniform(low, high, size)\<close> returns, for each position, \<open>low + (high - low) * u\<close>
  where \<open>u\<close> is the next unit draw of the generator, a 53-bit raw draw divided by \<open>2^53\<close>.
  As in \<open>random.shuffle\<close> above, the generator is the sequence of its raw draws. For
  \<open>embed_dim = 0\<close> the bounds \<open>-1 / np.sqrt(0)\<close> and \<open>1 / np.sqrt(0)\<close> are infinite and
  \<open>np.random.uniform\<close> raises OverflowError.
\<close>

definition random_sample :: "rng \<Rightarrow> nat \<Rightarrow> real" where
  "random_sample g j = real (g j mod 2 ^ 53) / 2 ^ 53"

definition np_random_uniform :: "real \<Rightarrow> real \<Rightarrow> rng \<Rightarrow> nat \<Rightarrow> real list" where
  "np_random_uniform low high g size_n =
     map (\<lambda>j. low + (high - low) * random_sample g j) [0..<size_n]"

fun assign_loop ::
  "nat \<Rightarrow> (string \<rightharpoonup> 'a list) \<Rightarrow> vocab \<Rightarrow> 'a matrix \<Rightarrow> error + 'a matrix" where
  "assign_loop embed_dim word_vec [] m = Inr m"
| "assign_loop embed_dim word_vec ((word, idx) # rest) m =
     (case word_vec word of
        None \<Rightarrow> assign_loop embed_dim word_vec rest m
      | Some vec \<Rightarrow>
          if length m \<le> idx then Inl IndexError
          else if length vec = embed_dim then assign_loop embed_dim word_vec rest (m[idx := vec])
          else if length vec = 1
               then assign_loop embed_dim word_vec rest (m[idx := replicate embed_dim (hd vec)])
          else Inl ValueError)"

definition build_embedding_matrix ::
  "(string \<Rightarrow> real option) \<Rightarrow> rng \<Rightarrow> string list \<Rightarrow> vocab \<Rightarrow> nat \<Rightarrow> error + real matrix" where
  "build_embedding_matrix parse_float g file_lines vocab embed_dim =
     (let embedding_matrix = replicate (dict_len vocab) (replicate embed_dim 0)
      in if embed_dim = 0 then Inl OverflowError
         else if dict_len vocab < 2 then Inl IndexError
         else bindE (load_word_vec parse_float file_lines vocab embed_dim) (\<lambda>word_vec.
                assign_loop embed_dim word_vec vocab
                  (embedding_matrix[1 := np_random_uniform (- 1 / sqrt (real embed_dim))
                                           (1 / sqrt (real embed_dim)) g embed_dim])))"

subsection \<open>Concrete inputs for the evaluations below\<close>

text \<open>
  An encoding as a tokenizer returns it for a text of the given input ids (all token type ids
  0, all mask values 1), and an example with the given full-text and aspect input ids, an empty
  context and left context, a polarity and one matrix used as graph and as tree.
\<close>

definition example_encoding :: "int list \<Rightarrow> encoding" where
  "example_encoding ids = [(''input_ids'', ids), (''token_type_ids'', map (\<lambda>_. 0) ids),
     (''attention_mask'', map (\<lambda>_. 1) ids)]"

definition example_item :: "int list \<Rightarrow> int list \<Rightarrow> int \<Rightarrow> int matrix \<Rightarrow> int item" where
  "example_item t a p g = \<lparr>text_indices = example_encoding t, context_indices = example_encoding [],
     aspect_indices = example_encoding a, left_indices = example_encoding [], polarity = p,
     dependency_graph = g, dependency_tree = g\<rparr>"

text \<open>A tokenizer for the evaluations: one token per character, its code as input id.\<close>

definition char_tokenizer :: "string \<Rightarrow> encoding" where
  "char_tokenizer s = example_encoding (map (\<lambda>c. int (of_char c :: nat)) s)"

text \<open>A reading of number tokens for the evaluations: decimal integers.\<close>

definition int_parser :: "string \<Rightarrow> real option" where
  "int_parser t = (case py_int t of Inl e \<Rightarrow> None | Inr v \<Rightarrow> Some (real_of_int v))"

section \<open>Properties\<close>

subsection \<open>Auxiliary facts\<close>

lemma dict_getitem_setitem:
  "dict_getitem (dict_setitem d k v) k' = (if k' = k then Inr v else dict_getitem d k')"
  by (simp add: dict_getitem_def dict_setitem_def update_conv')

lemma bindE_Inr: "bindE m f = Inr y \<longleftrightarrow> (\<exists>x. m = Inr x \<and> f x = Inr y)"
  by (cases m) (simp_all add: bindE_def)

lemma mapE_Inr_nth:
  "mapE f xs = Inr ys \<Longrightarrow> length ys = length xs \<and> (\<forall>i<length xs. f (xs ! i) = Inr (ys ! i))"
proof (induction xs arbitrary: ys)
  case Nil
  then show ?case by simp
next
  case (Cons x xs)
  from Cons.prems obtain y ys' where y: "f x = Inr y" and ys': "mapE f xs = Inr ys'"
    and eq: "ys = y # ys'"
    by (auto simp: bindE_Inr)
  from Cons.IH [OF ys'] y eq show ?case
    by (auto simp: nth_Cons split: nat.splits)
qed

lemma fold_max_ge: "(l::int) \<le> fold max ls l \<and> (\<forall>y\<in>set ls. y \<le> fold max ls l)"
proof (induction ls arbitrary: l)
  case Nil
  then show ?case by simp
next
  case (Cons a ls)
  from Cons.IH [of "max a l"] show ?case by auto
qed

lemma max_len_of_bound:
  assumes "max_len_of sk batch_data = Inr max_len" and "k < length batch_data"
    and "dict_getitem (item_getitem (batch_data ! k) sk) ''input_ids'' = Inr ids"
  shows "int (length ids) \<le> max_len"
proof -
  let ?f = "\<lambda>t. bindE (dict_getitem (item_getitem t sk) ''input_ids'') (\<lambda>ids. Inr (int (length ids)))"
  from assms(1) obtain ls where ls: "mapE ?f batch_data = Inr ls"
    and r: "(case ls of [] \<Rightarrow> Inl ValueError | l # ls' \<Rightarrow> Inr (fold max ls' l)) = Inr max_len"
    by (auto simp: max_len_of_def bindE_Inr)
  from mapE_Inr_nth [OF ls] assms(2) have len: "length ls = length batch_data"
    and "?f (batch_data ! k) = Inr (ls ! k)" by auto
  with assms(3) have k: "ls ! k = int (length ids)" by (simp add: bindE_def)
  from r obtain l ls' where lsc: "ls = l # ls'" and m: "max_len = fold max ls' l"
    by (auto split: list.splits)
  from len assms(2) have "ls ! k \<in> set ls" by simp
  with lsc m fold_max_ge [of l ls'] have "ls ! k \<le> max_len" by auto
  with k show ?thesis by simp
qed

lemma pad_batch_encoding_Inr:
  assumes "pad_batch_encoding d m = Inr d'"
  shows "\<exists>ids tti am. dict_getitem d ''input_ids'' = Inr ids
     \<and> dict_getitem d ''token_type_ids'' = Inr tti
     \<and> dict_getitem d ''attention_mask'' = Inr am
     \<and> d' = dict_setitem (dict_setitem (dict_setitem d ''input_ids''
                (ids @ replicate (nat (m - int (length ids))) 0))
              ''token_type_ids'' (tti @ replicate (nat (m - int (length ids))) 0))
            ''attention_mask_pad'' (am @ replicate (nat (m - int (length am))) 1)"
  using assms
  by (auto simp: pad_batch_encoding_def bindE_Inr Let_def dict_getitem_setitem)

lemma pad_batch_encoding_result:
  assumes "pad_batch_encoding d m = Inr d'"
    and "dict_getitem d ''input_ids'' = Inr ids" and "dict_getitem d ''attention_mask'' = Inr am"
  shows "dict_getitem d' ''input_ids'' = Inr (ids @ replicate (nat (m - int (length ids))) 0)"
    and "dict_getitem d' ''attention_mask_pad'' = Inr (am @ replicate (nat (m - int (length am))) 1)"
    and "dict_getitem d' ''attention_mask'' = Inr am"
  using pad_batch_encoding_Inr [OF assms(1)] assms(2,3)
  by (auto simp: dict_getitem_setitem)

lemma pad_data_Some:
  assumes "pad_data sk batch_data = Inr (Some B)"
  shows "\<exists>x rest max_len. batch_data = x # rest \<and> max_len_of sk batch_data = Inr max_len
           \<and> pad_item max_len x empty_batch = Inr B"
  using assms
  by (cases batch_data) (auto simp: pad_data_def bindE_Inr)

lemma pad_item_fields:
  assumes "pad_item m x empty_batch = Inr B"
  shows "\<exists>d'. batch_getitem B f = [d'] \<and> pad_batch_encoding (item_getitem x f) m = Inr d'"
  using assms
  by (cases f) (auto simp: pad_item_def bindE_Inr empty_batch_def)


lemma shuffle_loop_mset:
  "i < length xs \<or> i = 0 \<Longrightarrow>
   mset (fst (shuffle_loop i xs g)) = mset xs \<and> length (fst (shuffle_loop i xs g)) = length xs"
proof (induction i arbitrary: xs g)
  case 0
  then show ?case by simp
next
  case (Suc i)
  let ?j = "g 0 mod (Suc i + 1)"
  let ?xs = "xs[Suc i := xs ! ?j, ?j := xs ! Suc i]"
  from Suc.prems have i: "Suc i < length xs" by simp
  have "?j < Suc i + 1" by (rule mod_less_divisor) simp
  with i have j: "?j < length xs" by linarith
  have m: "mset ?xs = mset xs" using mset_swap [OF j i] .
  have "i < length ?xs \<or> i = 0" using i by simp
  from Suc.IH [OF this, of "\<lambda>k. g (Suc k)"] m show ?case
    by (simp add: randbelow_def)
qed

lemma random_shuffle_mset:
  "mset (fst (random_shuffle xs g)) = mset xs \<and> length (fst (random_shuffle xs g)) = length xs"
  unfolding random_shuffle_def
  by (rule shuffle_loop_mset) (cases xs, simp_all)

lemma iter_preserves:
  assumes "batch_len self = length (batches self)" and "iter self g = ((ys, e), self', g')"
  shows "e = None \<and> mset ys = mset (batches self) \<and> mset (batches self') = mset (batches self)
       \<and> batch_len self' = length (batches self') \<and> shuffle_attr self' = shuffle_attr self"
proof -
  obtain bs g1 where bs: "(if shuffle_attr self then random_shuffle (batches self) g
                      else (batches self, g)) = (bs, g1)" by (cases "(if shuffle_attr self then random_shuffle (batches self) g
                      else (batches self, g))")
  have ms: "mset bs = mset (batches self)" and ln: "length bs = length (batches self)"
    using bs random_shuffle_mset [of "batches self" g] by (auto split: if_splits)
  from assms(2) bs have ys: "ys = map (\<lambda>idx. bs ! idx) [0..<min (batch_len self) (length bs)]"
    and e: "e = (if length bs < batch_len self then Some IndexError else None)"
    and s': "self' = self\<lparr>batches := bs\<rparr>"
    by (simp_all add: iter_def Let_def)
  from ys ln assms(1) have "ys = map ((!) bs) [0..<length bs]" by simp
  then have "ys = bs" by (simp only: map_nth)
  with ms e s' ln assms(1) show ?thesis by simp
qed

lemma BucketIterator_init_attrs:
  "BucketIterator_init dat b sk shuf srt = Inr self \<Longrightarrow>
   batch_len self = length (batches self) \<and> shuffle_attr self = shuf"
  by (auto simp: BucketIterator_init_def bindE_def split: sum.splits)

lemma is_space_lower: "is_space (lower_char c) = is_space c"
  by (auto simp: is_space_def lower_char_def Let_def)

lemma py_strip_lower: "py_strip (py_lower s) = py_lower (py_strip s)"
  by (simp add: py_strip_def py_rstrip_def py_lower_def dropWhile_map rev_map comp_def is_space_lower)

lemma last_dropWhile: "dropWhile P xs \<noteq> [] \<Longrightarrow> last (dropWhile P xs) = last xs"
  by (metis last_appendR takeWhile_dropWhile_id)

lemma py_strip_idem: "py_strip (py_strip s) = py_strip s"
proof (cases "py_strip s = []")
  case True
  have "py_strip [] = []" by (simp add: py_strip_def py_rstrip_def)
  with True show ?thesis by simp
next
  case False
  let ?u = "dropWhile is_space (rev s)"
  let ?t = "py_strip s"
  have t: "?t = dropWhile is_space (rev ?u)" by (simp add: py_strip_def py_rstrip_def)
  have u: "?u \<noteq> []"
  proof
    assume e: "?u = []"
    have "dropWhile is_space (rev ?u) = []" by (simp only: e rev.simps(1) dropWhile.simps(1))
    with t False show False by simp
  qed
  have h: "\<not> is_space (hd ?t)" using False t hd_dropWhile by metis
  have "last ?t = last (rev ?u)" using False t last_dropWhile by metis
  also have "\<dots> = hd ?u" using u by (simp add: last_rev)
  finally have l: "\<not> is_space (last ?t)" using u hd_dropWhile by metis
  from l False have "dropWhile is_space (rev ?t) = rev ?t"
    by (simp add: dropWhile_eq_self_iff hd_rev)
  then have "py_rstrip ?t = ?t" by (simp add: py_rstrip_def)
  moreover from h have "dropWhile is_space ?t = ?t" by (simp add: dropWhile_eq_self_iff)
  ultimately show ?thesis by (simp add: py_strip_def[of ?t])
qed

lemma parse_digits_chars:
  "parse_digits acc s = Some v \<Longrightarrow> \<forall>c\<in>set s. is_digit c \<or> c = CHR ''_''"
  by (induction acc s rule: parse_digits.induct) (auto split: if_splits)

lemma parse_nat_chars: "parse_nat s = Some v \<Longrightarrow> \<forall>c\<in>set s. is_digit c \<or> c = CHR ''_''"
  using parse_digits_chars by (auto simp: parse_nat_def split: list.splits if_splits)

lemma lower_char_fixed:
  "is_digit c \<or> c = CHR ''_'' \<or> c = CHR ''-'' \<or> c = CHR ''+'' \<Longrightarrow> lower_char c = c"
  by (auto simp: is_digit_def lower_char_def Let_def)

lemma py_int_chars:
  assumes "py_int s = Inr v"
  shows "\<forall>c\<in>set (py_strip s). is_digit c \<or> c = CHR ''_'' \<or> c = CHR ''-'' \<or> c = CHR ''+''"
proof (cases "py_strip s")
  case Nil
  then show ?thesis by simp
next
  case (Cons c cs)
  with assms show ?thesis
    using parse_nat_chars [of cs] parse_nat_chars [of "c # cs"]
    by (auto simp: py_int_def Let_def split: if_splits option.splits)
qed

lemma py_int_lower_strip:
  assumes "py_int s = Inr v"
  shows "py_int (py_strip (py_lower s)) = Inr v"
proof -
  have "py_lower (py_strip s) = py_strip s"
    unfolding py_lower_def using py_int_chars [OF assms] lower_char_fixed
    by (simp add: map_idI)
  then have "py_strip (py_strip (py_lower s)) = py_strip s"
    by (simp add: py_strip_lower py_strip_idem)
  with assms show ?thesis by (simp add: py_int_def)
qed

lemma mapE_all_Inr: "(\<forall>x\<in>set xs. f x = Inr (g x)) \<Longrightarrow> mapE f xs = Inr (map g xs)"
  by (induction xs) (simp_all add: bindE_def)

lemma find_sep_None: "find_sep sep s = None \<Longrightarrow> s \<noteq> u @ sep @ v"
proof (induction s arbitrary: u)
  case Nil
  then show ?case by (auto split: if_splits)
next
  case (Cons c cs)
  from Cons.prems have nt: "take (length sep) (c # cs) \<noteq> sep" and n: "find_sep sep cs = None"
    by (auto split: if_splits)
  show ?case
  proof (cases u)
    case Nil
    with nt show ?thesis by auto
  next
    case (Cons a u')
    with Cons.IH [OF n, of u'] show ?thesis by auto
  qed
qed

lemma find_sep_first:
  assumes "sep \<noteq> []" and "\<forall>u v. l @ butlast sep \<noteq> u @ sep @ v"
  shows "find_sep sep (l @ sep @ r) = Some (l, r)"
  using assms(2)
proof (induction l)
  case Nil
  from assms(1) obtain c cs where "sep @ r = c # cs" by (cases sep) auto
  moreover have "take (length sep) (sep @ r) = sep" by simp
  ultimately show ?case by (metis append_Nil append_eq_conv_conj find_sep.simps(2))
next
  case (Cons c l)
  have len: "length sep \<le> length ((c # l) @ butlast sep)" using assms(1) by (cases sep) auto
  have "take (length sep) ((c # l) @ sep @ r) \<noteq> sep"
  proof
    assume eq: "take (length sep) ((c # l) @ sep @ r) = sep"
    have "take (length sep) ((c # l) @ sep @ r) = take (length sep) ((c # l) @ butlast sep)"
      using assms(1) by (cases sep rule: rev_cases) auto
    with eq have "take (length sep) ((c # l) @ butlast sep) = sep" by simp
    then have "(c # l) @ butlast sep = [] @ sep @ drop (length sep) ((c # l) @ butlast sep)"
      by (metis append_Nil append_take_drop_id)
    with Cons.prems show False by blast
  qed
  moreover have "\<forall>u v. l @ butlast sep \<noteq> u @ sep @ v"
  proof (intro allI notI)
    fix u v assume "l @ butlast sep = u @ sep @ v"
    then have "(c # l) @ butlast sep = (c # u) @ sep @ v" by simp
    with Cons.prems show False by blast
  qed
  ultimately show ?case using Cons.IH by simp
qed

lemma py_partition_marker:
  assumes "\<forall>u v. l @ ''$T'' \<noteq> u @ ''$T$'' @ v"
  shows "py_partition (l @ ''$T$'' @ r) ''$T$'' = (l, ''$T$'', r)"
proof -
  have "find_sep ''$T$'' (l @ ''$T$'' @ r) = Some (l, r)"
    by (rule find_sep_first) (use assms in simp_all)
  then show ?thesis by (simp add: py_partition_def)
qed

lemma list_getitem_nat: "i < length xs \<Longrightarrow> list_getitem xs (int i) = Inr (xs ! i)"
  by (simp add: list_getitem_def resolve_index_def)

lemma list_getitem_nat_plus:
  "i + j < length xs \<Longrightarrow> list_getitem xs (int i + int j) = Inr (xs ! (i + j))"
  using list_getitem_nat [of "i + j" xs] by simp

lemma find_snoc:
  "find P (xs @ [y]) = (case find P xs of None \<Rightarrow> (if P y then Some y else None) | Some x \<Rightarrow> Some x)"
  by (induction xs) simp_all

lemma load_loop_lookup:
  assumes "load_loop pf V d F wv0 = Inr wv"
  shows "(w \<notin> set (map fst V) \<longrightarrow> wv w = wv0 w)
       \<and> (w \<in> set (map fst V) \<longrightarrow>
            (case find (\<lambda>l. line_word d l = w) (rev F) of
               None \<Rightarrow> wv w = wv0 w
             | Some l \<Rightarrow> \<exists>vec. np_asarray pf (line_vec d l) = Inr vec \<and> wv w = Some vec))"
  using assms
proof (induction F arbitrary: wv0)
  case Nil
  then show ?case by simp
next
  case (Cons line rest)
  show ?case
  proof (cases "line_word d line \<in> set (map fst V)")
    case True
    with Cons.prems obtain v where v: "np_asarray pf (line_vec d line) = Inr v"
      and r: "load_loop pf V d rest (wv0(line_word d line \<mapsto> v)) = Inr wv"
      by (auto simp: Let_def bindE_Inr)
    from Cons.IH [OF r] v True show ?thesis
      by (auto simp: find_snoc split: option.splits)
  next
    case False
    with Cons.prems have r: "load_loop pf V d rest wv0 = Inr wv" by (simp add: Let_def)
    from Cons.IH [OF r] False show ?thesis
      by (auto simp: find_snoc split: option.splits)
  qed
qed

lemma assign_loop_rows:
  assumes "assign_loop d wv items m = Inr M" and "distinct (map snd items)"
  shows "length M = length m
     \<and> (\<forall>(w, i)\<in>set items. \<forall>vec. wv w = Some vec \<longrightarrow>
           i < length m \<and> M ! i = (if length vec = d then vec else replicate d (hd vec)))
     \<and> (\<forall>i<length m. (\<forall>(w, j)\<in>set items. j = i \<longrightarrow> wv w = None) \<longrightarrow> M ! i = m ! i)"
  using assms
proof (induction items arbitrary: m)
  case Nil
  then show ?case by simp
next
  case (Cons p rest)
  obtain word idx where p: "p = (word, idx)" by (cases p)
  from Cons.prems(2) p have dr: "distinct (map snd rest)" and nin: "idx \<notin> snd ` set rest"
    by auto
  show ?case
  proof (cases "wv word")
    case None
    with Cons.prems(1) p have r: "assign_loop d wv rest m = Inr M" by simp
    from Cons.IH [OF r dr] None p show ?thesis by auto
  next
    case (Some vec)
    let ?row = "if length vec = d then vec else replicate d (hd vec)"
    from Cons.prems(1) p Some have lt: "idx < length m"
      and r: "assign_loop d wv rest (m[idx := ?row]) = Inr M"
      by (auto split: if_splits)
    note ih = Cons.IH [OF r dr]
    from ih have len: "length M = length m" by simp
    have here: "M ! idx = ?row"
    proof -
      from nin have "\<forall>(w, j)\<in>set rest. j = idx \<longrightarrow> wv w = None" by force
      with ih lt have "M ! idx = (m[idx := ?row]) ! idx" by simp
      with lt show ?thesis by simp
    qed
    have others: "M ! i = m ! i"
      if "i < length m" and "\<forall>(w, j)\<in>set (p # rest). j = i \<longrightarrow> wv w = None" for i
    proof -
      from that(2) p Some have ne: "i \<noteq> idx" by auto
      from that(2) have "\<forall>(w, j)\<in>set rest. j = i \<longrightarrow> wv w = None" by auto
      with ih that(1) have "M ! i = (m[idx := ?row]) ! i" by simp
      with ne show ?thesis by simp
    qed
    from ih len here others p Some lt show ?thesis by auto
  qed
qed

lemma assign_loop_row_lengths:
  assumes "assign_loop d wv items m = Inr M" and "\<forall>r\<in>set m. length r = d"
  shows "\<forall>r\<in>set M. length r = d"
  using assms
proof (induction items arbitrary: m)
  case Nil
  then show ?case by simp
next
  case (Cons p rest)
  obtain word idx where p: "p = (word, idx)" by (cases p)
  show ?case
  proof (cases "wv word")
    case None
    with Cons p show ?thesis by simp
  next
    case (Some vec)
    let ?row = "if length vec = d then vec else replicate d (hd vec)"
    from Cons.prems(1) p Some have r: "assign_loop d wv rest (m[idx := ?row]) = Inr M"
      by (auto split: if_splits)
    have "\<forall>r\<in>set (m[idx := ?row]). length r = d"
      using Cons.prems(2) set_update_subset_insert [of m idx ?row] by auto
    from Cons.IH [OF r this] show ?thesis .
  qed
qed


lemma distinct_snd_unique:
  "distinct (map snd xs) \<Longrightarrow> (a, i) \<in> set xs \<Longrightarrow> (b, i) \<in> set xs \<Longrightarrow> a = b"
  by (induction xs) force+

lemma random_sample_unit: "0 \<le> random_sample g j \<and> random_sample g j < 1"
proof -
  have "g j mod 2 ^ 53 < (2::nat) ^ 53" by simp
  then have "real (g j mod 2 ^ 53) < real ((2::nat) ^ 53)" by (simp only: of_nat_less_iff)
  then show ?thesis by (simp add: random_sample_def)
qed

lemma np_random_uniform_bounds:
  assumes "low \<le> high" and "x \<in> set (np_random_uniform low high g n)"
  shows "low \<le> x \<and> x \<le> high"
proof -
  from assms(2) obtain j where x: "x = low + (high - low) * random_sample g j"
    by (auto simp: np_random_uniform_def)
  let ?u = "random_sample g j"
  from random_sample_unit [of g j] have u: "0 \<le> ?u" "?u \<le> 1" by simp_all
  from assms(1) have d: "0 \<le> high - low" by simp
  from d u have "0 \<le> (high - low) * ?u" by simp
  moreover from d u have "(high - low) * ?u \<le> (high - low) * 1" by (intro mult_left_mono) simp_all
  ultimately show ?thesis using x by simp
qed

subsection \<open>Dataset container\<close>

text \<open>
  C8, as amended. For an ABSADataset constructed over a list of \<open>n\<close> examples, \<open>__len__\<close>
  returns \<open>n\<close>; \<open>__getitem__(i)\<close> for \<open>0 \<le> i < n\<close> returns the \<open>i\<close>-th example of the
  original list; and \<open>__getitem__\<close> with an index \<open>i \<ge> n\<close> or \<open>i < -n\<close> fails with
  IndexError.
\<close>

theorem ABSADataset_len_getitem:
  "len (ABSADataset_init xs) = length xs
   \<and> (\<forall>i. 0 \<le> i \<and> i < int (length xs) \<longrightarrow> getitem (ABSADataset_init xs) i = Inr (xs ! nat i))
   \<and> (\<forall>i. i \<ge> int (length xs) \<or> i < - int (length xs) \<longrightarrow>
          getitem (ABSADataset_init xs) i = Inl IndexError)"
  by (auto simp: len_def getitem_def list_getitem_def resolve_index_def ABSADataset_init_def)

theorem ABSADataset_len_getitem_witness:
  "len (ABSADataset_init [10, 20, 30 :: int]) = 3
   \<and> getitem (ABSADataset_init [10, 20, 30 :: int]) 1 = Inr 20
   \<and> getitem (ABSADataset_init [10, 20, 30 :: int]) 3 = Inl IndexError
   \<and> getitem (ABSADataset_init [10, 20, 30 :: int]) (- 4) = Inl IndexError"
proof -
  note t = ABSADataset_len_getitem [of "[10, 20, 30 :: int]"]
  from t have a: "len (ABSADataset_init [10, 20, 30 :: int]) = 3" by simp
  from t have "(0::int) \<le> 1 \<and> (1::int) < int (length [10, 20, 30 :: int]) \<longrightarrow>
      getitem (ABSADataset_init [10, 20, 30 :: int]) 1 = Inr ([10, 20, 30] ! nat 1)" by blast
  then have b: "getitem (ABSADataset_init [10, 20, 30 :: int]) 1 = Inr 20" by simp
  from t have "(3::int) \<ge> int (length [10, 20, 30 :: int]) \<or> (3::int) < - int (length [10, 20, 30 :: int]) \<longrightarrow>
      getitem (ABSADataset_init [10, 20, 30 :: int]) 3 = Inl IndexError" by blast
  then have c: "getitem (ABSADataset_init [10, 20, 30 :: int]) 3 = Inl IndexError" by simp
  from t have "(- 4::int) \<ge> int (length [10, 20, 30 :: int]) \<or> (- 4::int) < - int (length [10, 20, 30 :: int]) \<longrightarrow>
      getitem (ABSADataset_init [10, 20, 30 :: int]) (- 4) = Inl IndexError" by blast
  then have d: "getitem (ABSADataset_init [10, 20, 30 :: int]) (- 4) = Inl IndexError" by simp
  from a b c d show ?thesis by blast
qed

text \<open>
  C8 as stated fails for an index that is outside \<open>0 \<le> i < n\<close> but not below \<open>-n\<close>:
  such an index does not fail, it counts from the end of the list.
\<close>

theorem ABSADataset_getitem_out_of_range_counterexample:
  "getitem (ABSADataset_init [7, 8 :: int]) (- 2) = Inr 7"
  by (simp add: getitem_def list_getitem_def resolve_index_def ABSADataset_init_def)

text \<open>
  C10. \<open>__getitem__\<close> accepts negative indices: for a dataset of length \<open>n\<close> and every
  integer \<open>i\<close> with \<open>-n \<le> i < 0\<close>, \<open>__getitem__(i)\<close> returns the example at position
  \<open>n + i\<close> and does not fail.
\<close>

theorem ABSADataset_getitem_negative:
  "- int (length xs) \<le> i \<Longrightarrow> i < 0 \<Longrightarrow>
   getitem (ABSADataset_init xs) i = Inr (xs ! nat (int (length xs) + i))"
  by (simp add: getitem_def list_getitem_def resolve_index_def ABSADataset_init_def)

theorem ABSADataset_getitem_negative_witness:
  "getitem (ABSADataset_init [10, 20, 30 :: int]) (- 1) = Inr 30"
  using ABSADataset_getitem_negative [of "[10, 20, 30 :: int]" "- 1"] by simp

subsection \<open>Padding of one encoding\<close>

text \<open>
  C9. For an encoding whose three sequences are present, with the token type ids as long as
  the input ids, and for every \<open>max_len\<close> at least that length, \<open>pad_batch_encoding\<close>
  returns an encoding in which \<open>attention_mask\<close> is the unpadded original, the padded mask
  (the original followed by 1s) is stored under the distinct key \<open>attention_mask_pad\<close>,
  \<open>input_ids\<close> and \<open>token_type_ids\<close> are the originals followed by 0s and have length
  \<open>max_len\<close>, and every other key is unchanged.
\<close>

theorem pad_batch_encoding_frame:
  assumes ids: "dict_getitem d ''input_ids'' = Inr ids"
    and tti: "dict_getitem d ''token_type_ids'' = Inr tti"
    and amask: "dict_getitem d ''attention_mask'' = Inr am"
    and len_tti: "length tti = length ids"
    and le: "int (length ids) \<le> max_len"
  shows "\<exists>d'. pad_batch_encoding d max_len = Inr d'
     \<and> dict_getitem d' ''attention_mask'' = Inr am
     \<and> dict_getitem d' ''attention_mask_pad'' =
         Inr (am @ replicate (nat (max_len - int (length am))) 1)
     \<and> dict_getitem d' ''input_ids'' = Inr (ids @ replicate (nat max_len - length ids) 0)
     \<and> dict_getitem d' ''token_type_ids'' = Inr (tti @ replicate (nat max_len - length ids) 0)
     \<and> int (length (ids @ replicate (nat max_len - length ids) 0)) = max_len
     \<and> int (length (tti @ replicate (nat max_len - length ids) 0)) = max_len
     \<and> (\<forall>k. k \<noteq> ''input_ids'' \<and> k \<noteq> ''token_type_ids'' \<and> k \<noteq> ''attention_mask_pad'' \<longrightarrow>
            dict_getitem d' k = dict_getitem d k)"
  using assms
  by (auto simp: pad_batch_encoding_def bindE_def Let_def dict_getitem_setitem nat_diff_distrib)

theorem pad_batch_encoding_frame_witness:
  "\<exists>d'. pad_batch_encoding (example_encoding [5, 6]) 3 = Inr d'
     \<and> dict_getitem d' ''attention_mask'' = Inr [1, 1]
     \<and> dict_getitem d' ''attention_mask_pad'' = Inr [1, 1, 1]
     \<and> dict_getitem d' ''input_ids'' = Inr [5, 6, 0]
     \<and> dict_getitem d' ''token_type_ids'' = Inr [0, 0, 0]"
proof -
  have h1: "dict_getitem (example_encoding [5, 6]) ''input_ids'' = Inr [5, 6]"
    and h2: "dict_getitem (example_encoding [5, 6]) ''token_type_ids'' = Inr [0, 0]"
    and h3: "dict_getitem (example_encoding [5, 6]) ''attention_mask'' = Inr [1, 1]"
    by (simp_all add: example_encoding_def dict_getitem_def)
  have h4: "length [0, 0 :: int] = length [5, 6 :: int]" and h5: "int (length [5, 6 :: int]) \<le> 3"
    by simp_all
  from pad_batch_encoding_frame [OF h1 h2 h3 h4 h5] obtain d' where
    "pad_batch_encoding (example_encoding [5, 6]) 3 = Inr d'"
    "dict_getitem d' ''attention_mask'' = Inr [1, 1]"
    "dict_getitem d' ''attention_mask_pad'' = Inr ([1, 1] @ replicate (nat (3 - int (length [1, 1 :: int]))) 1)"
    "dict_getitem d' ''input_ids'' = Inr ([5, 6] @ replicate (nat 3 - length [5, 6 :: int]) 0)"
    "dict_getitem d' ''token_type_ids'' = Inr ([0, 0] @ replicate (nat 3 - length [5, 6 :: int]) 0)"
    by blast
  then show ?thesis by (intro exI [of _ d']) (simp add: numeral_3_eq_3)
qed

subsection \<open>Padding of a batch\<close>

text \<open>
  C2, as amended. When \<open>pad_data\<close> returns a dictionary \<open>B\<close> for a batch, with \<open>max_len\<close>
  the longest input-id length of the sort-key field over the batch (the full text by default),
  then every entry \<open>k\<close> of each of the four tokenized field lists of \<open>B\<close> holds, under
  \<open>input_ids\<close>, the original input ids of example \<open>k\<close> followed by 0s and, under
  \<open>attention_mask_pad\<close>, the original mask followed by 1s. The padded sequence has length
  exactly \<open>max_len\<close> when the original is no longer than \<open>max_len\<close>, which always holds for
  the input ids of the sort-key field; a longer original is followed by no padding.
\<close>

theorem pad_data_padding:
  assumes ret: "pad_data sk batch_data = Inr (Some B)"
    and ml: "max_len_of sk batch_data = Inr max_len"
    and k: "k < length (batch_getitem B f)"
    and ids: "dict_getitem (item_getitem (batch_data ! k) f) ''input_ids'' = Inr ids"
    and am: "dict_getitem (item_getitem (batch_data ! k) f) ''attention_mask'' = Inr am"
  shows "dict_getitem (batch_getitem B f ! k) ''input_ids'' =
           Inr (ids @ replicate (nat (max_len - int (length ids))) 0)
       \<and> dict_getitem (batch_getitem B f ! k) ''attention_mask_pad'' =
           Inr (am @ replicate (nat (max_len - int (length am))) 1)
       \<and> (int (length ids) \<le> max_len \<longrightarrow>
            int (length (ids @ replicate (nat (max_len - int (length ids))) 0)) = max_len)
       \<and> (int (length am) \<le> max_len \<longrightarrow>
            int (length (am @ replicate (nat (max_len - int (length am))) 1)) = max_len)
       \<and> (f = sk \<longrightarrow> int (length ids) \<le> max_len)"
proof -
  from pad_data_Some [OF ret] ml obtain x rest where bd: "batch_data = x # rest"
    and pi: "pad_item max_len x empty_batch = Inr B" by auto
  from pad_item_fields [OF pi, of f] obtain d' where one: "batch_getitem B f = [d']"
    and pe: "pad_batch_encoding (item_getitem x f) max_len = Inr d'" by blast
  from k one have k0: "k = 0" by simp
  from ids am bd k0 have ids0: "dict_getitem (item_getitem x f) ''input_ids'' = Inr ids"
    and am0: "dict_getitem (item_getitem x f) ''attention_mask'' = Inr am" by simp_all
  have bound: "int (length ids) \<le> max_len" if "f = sk"
    using max_len_of_bound [OF ml, of 0 ids] ids0 bd that by simp
  from pad_batch_encoding_result [OF pe ids0 am0] one k0 bound show ?thesis by simp
qed


theorem pad_data_padding_witness:
  "\<exists>B. pad_data TextIndices
          [example_item [5, 6] [6] 0 [[1, 1], [1, 1]],
           example_item [7, 8, 9] [8] 2 [[1, 0, 0], [0, 1, 0], [0, 0, 1]]] = Inr (Some B)
     \<and> dict_getitem (batch_getitem B AspectIndices ! 0) ''input_ids'' = Inr [6, 0, 0]
     \<and> dict_getitem (batch_getitem B AspectIndices ! 0) ''attention_mask_pad'' = Inr [1, 1, 1]"
proof -
  let ?bd = "[example_item [5, 6] [6] 0 [[1, 1], [1, 1]],
              example_item [7, 8, 9] [8] 2 [[1, 0, 0], [0, 1, 0], [0, 0, 1]]]"
  let ?B = "case pad_data TextIndices ?bd of Inr (Some b) \<Rightarrow> b"
  have h1: "pad_data TextIndices ?bd = Inr (Some ?B)" by code_simp
  have h2: "max_len_of TextIndices ?bd = Inr 3" by code_simp
  have h3: "0 < length (batch_getitem ?B AspectIndices)" by code_simp
  have h4: "dict_getitem (item_getitem (?bd ! 0) AspectIndices) ''input_ids'' = Inr [6]" by code_simp
  have h5: "dict_getitem (item_getitem (?bd ! 0) AspectIndices) ''attention_mask'' = Inr [1]" by code_simp
  from pad_data_padding [OF h1 h2 h3 h4 h5] have
    "dict_getitem (batch_getitem ?B AspectIndices ! 0) ''input_ids'' = Inr [6, 0, 0]"
    "dict_getitem (batch_getitem ?B AspectIndices ! 0) ''attention_mask_pad'' = Inr [1, 1, 1]"
    by (simp_all add: numeral_2_eq_2)
  with h1 show ?thesis by blast
qed

text \<open>
  C2 as stated fails where a field is longer than \<open>max_len\<close>: in a batch of one example
  with one full-text input id and two aspect input ids, \<open>max_len\<close> is 1 and the aspect entry
  of the returned dictionary keeps its two input ids and gets a mask of length 2.
\<close>

theorem pad_data_longer_field_counterexample:
  "max_len_of TextIndices [example_item [5] [7, 8] 0 [[1]]] = Inr 1
   \<and> map_sum id (map_option batch_aspect_indices)
        (pad_data TextIndices [example_item [5] [7, 8] 0 [[1]]])
       = Inr (Some [[(''input_ids'', [7, 8]), (''token_type_ids'', [0, 0]),
                     (''attention_mask'', [1, 1]), (''attention_mask_pad'', [1, 1])]])"
  by code_simp

text \<open>
  C3. The claim asks that the graph and tree matrices in the batch dictionary be zero-padded to
  side \<open>max_len\<close>. The code computes the pad width from \<open>text_indices["input_ids"]\<close> after
  \<open>pad_batch_encoding\<close> has already replaced that entry by the padded sequence, so the
  width is 0: in a batch of a two-token and a three-token example, \<open>max_len\<close> is 3 and the
  \<open>2 \<times> 2\<close> matrices of the first example are returned unpadded.
\<close>

theorem pad_data_matrices_not_padded:
  "max_len_of TextIndices
      [example_item [5, 6] [6] 0 [[1, 1], [1, 1]],
       example_item [7, 8, 9] [8] 2 [[1, 0, 0], [0, 1, 0], [0, 0, 1]]] = Inr 3
   \<and> map_sum id (map_option batch_dependency_graph) (pad_data TextIndices
      [example_item [5, 6] [6] 0 [[1, 1], [1, 1]],
       example_item [7, 8, 9] [8] 2 [[1, 0, 0], [0, 1, 0], [0, 0, 1]]])
     = Inr (Some [[[1, 1], [1, 1]]])
   \<and> map_sum id (map_option batch_dependency_tree) (pad_data TextIndices
      [example_item [5, 6] [6] 0 [[1, 1], [1, 1]],
       example_item [7, 8, 9] [8] 2 [[1, 0, 0], [0, 1, 0], [0, 0, 1]]])
     = Inr (Some [[[1, 1], [1, 1]]])"
  by code_simp

subsection \<open>Construction of the iterator\<close>

text \<open>
  C1. The claim asks that every example of a chunk be accumulated, so that the polarity labels
  over all batches are those of the dataset. The \<open>return\<close> inside the loop of \<open>pad_data\<close>
  ends it after the first item: for a dataset of two examples with labels 0 and 2 and batch
  size 2, construction yields one batch (the ceiling of 2 / 2) whose polarity list is \<open>[0]\<close>.
\<close>

theorem sort_and_pad_drops_labels:
  "map_sum id (map (map_option batch_polarity))
     (sort_and_pad TextIndices True (ABSADataset_init
        [example_item [5, 6] [6] 0 [[1, 1], [1, 1]],
         example_item [7, 8, 9] [8] 2 [[1, 0, 0], [0, 1, 0], [0, 0, 1]]]) 2)
     = Inr [Some [0]]"
  by code_simp

text \<open>
  C4. The claim asks that with \<open>sort=True\<close> the batches follow the ascending tokenized length
  of the sort-key field. The key of \<open>sorted\<close> is \<open>len(x[self.sort_key])\<close>, the number of
  entries of the encoding, not \<open>len(x[self.sort_key]["input_ids"])\<close> as in \<open>pad_data\<close>:
  a dataset of a three-token example followed by a two-token one, with batch size 1, keeps
  its order.
\<close>

theorem sort_and_pad_not_sorted_by_length:
  "map_sum id (map (map_option (map (\<lambda>e. map_of e ''input_ids'') \<circ> batch_text_indices)))
     (sort_and_pad TextIndices True (ABSADataset_init
        [example_item [7, 8, 9] [8] 2 [[1, 0, 0], [0, 1, 0], [0, 0, 1]],
         example_item [5, 6] [6] 0 [[1, 1], [1, 1]]]) 1)
     = Inr [Some [Some [7, 8, 9]], Some [Some [5, 6]]]"
  by code_simp

subsection \<open>Traversal of the iterator\<close>

text \<open>
  C7. With \<open>shuffle=True\<close>, on an iterator whose \<open>batch_len\<close> is the length of its
  \<open>batches\<close> list (as the constructor leaves it, and as every traversal leaves it again),
  two successive traversals, whatever the random generator draws, each end without error and
  yield every precomputed batch dictionary exactly once: the multiset of the items yielded is
  the multiset of the precomputed batches, in both traversals, and the \<open>batches\<close> list holds
  the same dictionaries afterwards. Only the order can differ.
\<close>

theorem iter_same_batches:
  assumes "shuffle_attr self" and "batch_len self = length (batches self)"
    and "iter self g = ((ys1, e1), self1, g1)"
    and "iter self1 g' = ((ys2, e2), self2, g2)"
  shows "e1 = None \<and> e2 = None \<and> mset ys1 = mset (batches self) \<and> mset ys2 = mset (batches self)
       \<and> mset ys2 = mset ys1 \<and> mset (batches self2) = mset (batches self)
       \<and> shuffle_attr self2 \<and> batch_len self2 = length (batches self2)"
proof -
  from iter_preserves [OF assms(2) assms(3)] have 1: "e1 = None" "mset ys1 = mset (batches self)"
    "mset (batches self1) = mset (batches self)" "batch_len self1 = length (batches self1)"
    "shuffle_attr self1 = shuffle_attr self"
    by simp_all
  from iter_preserves [OF 1(4) assms(4)] 1 assms(1) show ?thesis by simp
qed

theorem iter_same_batches_witness:
  "\<exists>self ys1 self1 g1 ys2 self2 g2.
     BucketIterator_init (ABSADataset_init
        [example_item [5] [5] 0 [[1]], example_item [6] [6] 1 [[1]], example_item [7] [7] 2 [[1]]])
        1 TextIndices True True = Inr self
     \<and> iter self (\<lambda>k. 0) = ((ys1, None), self1, g1)
     \<and> iter self1 (\<lambda>k. 0) = ((ys2, None), self2, g2)
     \<and> mset ys1 = mset (batches self) \<and> mset ys2 = mset ys1
     \<and> map (map_option batch_polarity) ys1 = [Some [1], Some [2], Some [0]]
     \<and> map (map_option batch_polarity) ys2 = [Some [2], Some [0], Some [1]]"
proof -
  let ?D = "ABSADataset_init
        [example_item [5] [5] 0 [[1]], example_item [6] [6] 1 [[1]], example_item [7] [7] 2 [[1]]]"
  let ?self = "case BucketIterator_init ?D 1 TextIndices True True of Inr s \<Rightarrow> s"
  have h1: "BucketIterator_init ?D 1 TextIndices True True = Inr ?self" by code_simp
  obtain ys1 e1 self1 g1 where r1: "iter ?self (\<lambda>k. 0) = ((ys1, e1), self1, g1)"
    by (metis prod.exhaust)
  obtain ys2 e2 self2 g2 where r2: "iter self1 (\<lambda>k. 0) = ((ys2, e2), self2, g2)"
    by (metis prod.exhaust)
  from BucketIterator_init_attrs [OF h1] have h2: "shuffle_attr ?self"
    and h3: "batch_len ?self = length (batches ?self)" by simp_all
  note t = iter_same_batches [OF h2 h3 r1 r2]
  have "map (map_option batch_polarity) (fst (fst (iter ?self (\<lambda>k. 0))))
      = [Some [1], Some [2], Some [0]]"
    by code_simp
  with r1 have p1: "map (map_option batch_polarity) ys1 = [Some [1], Some [2], Some [0]]"
    by simp
  have "map (map_option batch_polarity)
          (fst (fst (iter (fst (snd (iter ?self (\<lambda>k. 0)))) (\<lambda>k. 0))))
      = [Some [2], Some [0], Some [1]]"
    by code_simp
  with r1 r2 have p2: "map (map_option batch_polarity) ys2 = [Some [2], Some [0], Some [1]]"
    by simp
  from t have e: "e1 = None" "e2 = None" and m1: "mset ys1 = mset (batches ?self)"
    and m2: "mset ys2 = mset ys1" by simp_all
  from r1 e have r1': "iter ?self (\<lambda>k. 0) = ((ys1, None), self1, g1)" by simp
  from r2 e have r2': "iter self1 (\<lambda>k. 0) = ((ys2, None), self2, g2)" by simp
  show ?thesis
    apply (rule exI [of _ ?self], rule exI [of _ ys1], rule exI [of _ self1], rule exI [of _ g1])
    apply (rule exI [of _ ys2], rule exI [of _ self2], rule exI [of _ g2])
    apply (intro conjI h1 r1' r2' m1 m2 p1 p2)
    done
qed

subsection \<open>The dataset reader\<close>

text \<open>
  C6. For a raw file of \<open>3 n\<close> lines in which, for every \<open>k < n\<close>, line \<open>3 k\<close> is a left
  context \<open>L k\<close>, the marker \<open>$T$\<close> at its first occurrence and a right context \<open>R k\<close>,
  line \<open>3 k + 2\<close> reads as the integer \<open>P k\<close>, and both mappings have the key \<open>3 k\<close>, the
  reader returns \<open>n\<close> examples in order. Example \<open>k\<close> has polarity \<open>P k + 1\<close>; its context
  tokenization is of the lower-cased trimmed left context, a space and the lower-cased trimmed
  right context; its aspect and left tokenizations are of the lower-cased trimmed line
  \<open>3 k + 1\<close> and of the left context alone; its full-text tokenization is of left, aspect and
  right joined by spaces; and its matrices are the mappings' values at the key \<open>3 k\<close>.
\<close>

theorem read_data_examples:
  assumes len: "length lines = 3 * n"
    and marker: "\<forall>k<n. lines ! (3 * k) = L k @ ''$T$'' @ R k
                        \<and> (\<forall>u v. L k @ ''$T'' \<noteq> u @ ''$T$'' @ v)"
    and pol: "\<forall>k<n. py_int (lines ! (3 * k + 2)) = Inr (P k)"
    and mats: "\<forall>k<n. idx2graph (3 * k) = Some (G k) \<and> idx2tree (3 * k) = Some (T k)"
  shows "read_data tokenizer lines idx2graph idx2tree =
     Inr (map (\<lambda>k.
        \<lparr>text_indices = tokenizer (py_strip (py_lower (L k)) @ '' ''
                           @ py_strip (py_lower (lines ! (3 * k + 1))) @ '' ''
                           @ py_strip (py_lower (R k))),
         context_indices = tokenizer (py_strip (py_lower (L k)) @ '' '' @ py_strip (py_lower (R k))),
         aspect_indices = tokenizer (py_strip (py_lower (lines ! (3 * k + 1)))),
         left_indices = tokenizer (py_strip (py_lower (L k))),
         polarity = P k + 1,
         dependency_graph = G k,
         dependency_tree = T k\<rparr>) [0..<n])"
proof -
  let ?ex = "\<lambda>k. \<lparr>text_indices = tokenizer (py_strip (py_lower (L k)) @ '' ''
                           @ py_strip (py_lower (lines ! (3 * k + 1))) @ '' ''
                           @ py_strip (py_lower (R k))),
         context_indices = tokenizer (py_strip (py_lower (L k)) @ '' '' @ py_strip (py_lower (R k))),
         aspect_indices = tokenizer (py_strip (py_lower (lines ! (3 * k + 1)))),
         left_indices = tokenizer (py_strip (py_lower (L k))),
         polarity = P k + 1,
         dependency_graph = G k,
         dependency_tree = T k\<rparr>"
  have rec: "read_record tokenizer lines idx2graph idx2tree (3 * k) = Inr (?ex k)" if k: "k < n" for k
  proof -
    from k len have i0: "3 * k < length lines" and i1: "3 * k + 1 < length lines"
      and i2: "3 * k + 2 < length lines" by simp_all
    have g0: "list_getitem lines (int (3 * k)) = Inr (lines ! (3 * k))"
      using list_getitem_nat [OF i0] .
    have g1: "list_getitem lines (int (3 * k) + 1) = Inr (lines ! (3 * k + 1))"
      using list_getitem_nat_plus [of "3 * k" 1 lines] i1 by simp
    have g2: "list_getitem lines (int (3 * k) + 2) = Inr (lines ! (3 * k + 2))"
      using list_getitem_nat_plus [of "3 * k" 2 lines] i2 by simp
    from marker k have part: "py_partition (lines ! (3 * k)) ''$T$'' = (L k, ''$T$'', R k)"
      using py_partition_marker [of "L k" "R k"] by simp
    from pol k have "py_int (lines ! (3 * k + 2)) = Inr (P k)" by simp
    then have p: "py_int (py_strip (py_lower (lines ! (3 * k + 2)))) = Inr (P k)"
      by (rule py_int_lower_strip)
    from mats k have m: "idx2graph (3 * k) = Some (G k)" "idx2tree (3 * k) = Some (T k)" by simp_all
    show ?thesis
      unfolding read_record_def g0 g1 g2 using part p m
      by (simp add: bindE_def Let_def)
  qed
  have "(length lines + 2) div 3 = n" using len by simp
  then have "read_data tokenizer lines idx2graph idx2tree =
      mapE (read_record tokenizer lines idx2graph idx2tree) (map (\<lambda>k. 3 * k) [0..<n])"
    by (simp add: read_data_def)
  also have "\<dots> = Inr (map (\<lambda>i. ?ex (i div 3)) (map (\<lambda>k. 3 * k) [0..<n]))"
    by (rule mapE_all_Inr) (auto simp: rec)
  also have "map (\<lambda>i. ?ex (i div 3)) (map (\<lambda>k. 3 * k) [0..<n]) = map ?ex [0..<n]"
    by simp
  finally show ?thesis .
qed


theorem read_data_examples_witness:
  "read_data char_tokenizer [''great $T$ food\<newline>'', ''Pizza\<newline>'', ''1\<newline>'']
      [0 \<mapsto> [[1::int]]] [0 \<mapsto> [[2]]] =
   Inr [\<lparr>text_indices = char_tokenizer ''great pizza food'',
         context_indices = char_tokenizer ''great food'',
         aspect_indices = char_tokenizer ''pizza'',
         left_indices = char_tokenizer ''great'',
         polarity = 2, dependency_graph = [[1]], dependency_tree = [[2]]\<rparr>]"
proof -
  let ?lines = "[''great $T$ food\<newline>'', ''Pizza\<newline>'', ''1\<newline>'']"
  have h1: "length ?lines = 3 * 1" by simp
  have "find_sep ''$T$'' ''great $T'' = None" by code_simp
  then have nm: "\<forall>u v. ''great $T'' \<noteq> u @ ''$T$'' @ v" using find_sep_None by blast
  have h2: "\<forall>k<1::nat. ?lines ! (3 * k) = (\<lambda>_. ''great '') k @ ''$T$'' @ (\<lambda>_. '' food\<newline>'') k
        \<and> (\<forall>u v. (\<lambda>_. ''great '') k @ ''$T'' \<noteq> u @ ''$T$'' @ v)"
    using nm by simp
  have "py_int ''1\<newline>'' = Inr 1" by code_simp
  then have h3: "\<forall>k<1::nat. py_int (?lines ! (3 * k + 2)) = Inr ((\<lambda>_. 1) k)"
    by simp
  have h4: "\<forall>k<1::nat. [0 \<mapsto> [[1::int]]] (3 * k) = Some ((\<lambda>_. [[1]]) k)
       \<and> [0 \<mapsto> [[2::int]]] (3 * k) = Some ((\<lambda>_. [[2]]) k)" by simp
  have s1: "py_strip (py_lower ''great '') = ''great''" by code_simp
  have s2: "py_strip (py_lower ''Pizza\<newline>'') = ''pizza''" by code_simp
  have s3: "py_strip (py_lower '' food\<newline>'') = ''food''" by code_simp
  from read_data_examples [OF h1 h2 h3 h4, of char_tokenizer] show ?thesis
    by (simp add: s1 s2 s3 del: fun_upd_apply)
qed

subsection \<open>The embedding matrix\<close>

text \<open>
  C5, as amended. For a vocabulary with distinct words and distinct indices, whenever
  \<open>build_embedding_matrix\<close> returns a matrix, it has one row per vocabulary word and every
  row has length \<open>embed_dim\<close>. For a word \<open>w\<close> of index \<open>i\<close> that has a line in the
  vector file, \<open>i\<close> is a row and row \<open>i\<close> is the vector read from the last such line, its
  trailing \<open>embed_dim\<close> tokens (a vector of one number is broadcast over the row); this
  includes the rows 0 and 1. Every other row is zero, except row 1, which holds the draw of
  \<open>np.random.uniform\<close> between \<open>-1 / sqrt embed_dim\<close> and \<open>1 / sqrt embed_dim\<close>; every
  value of that draw lies in the closed interval between these two bounds.
\<close>

theorem build_embedding_matrix_rows:
  assumes ret: "build_embedding_matrix parse_float g file_lines vocab embed_dim = Inr M"
    and keys: "distinct (map fst vocab)" and idxs: "distinct (map snd vocab)"
  shows "length M = length vocab \<and> (\<forall>r\<in>set M. length r = embed_dim)
    \<and> (\<forall>(w, i)\<in>set vocab.
         (case find (\<lambda>l. line_word embed_dim l = w) (rev file_lines) of
            Some l \<Rightarrow> i < length vocab \<and>
              (\<exists>vec. np_asarray parse_float (line_vec embed_dim l) = Inr vec \<and>
                 M ! i = (if length vec = embed_dim then vec else replicate embed_dim (hd vec)))
          | None \<Rightarrow> i < length vocab \<longrightarrow>
              M ! i = (if i = 1 then np_random_uniform (- 1 / sqrt (real embed_dim)) (1 / sqrt (real embed_dim)) g embed_dim else replicate embed_dim 0)))
    \<and> (\<forall>i<length vocab. i \<notin> snd ` set vocab \<longrightarrow>
          M ! i = (if i = 1 then np_random_uniform (- 1 / sqrt (real embed_dim)) (1 / sqrt (real embed_dim)) g embed_dim else replicate embed_dim 0))
    \<and> (\<forall>x\<in>set (np_random_uniform (- 1 / sqrt (real embed_dim)) (1 / sqrt (real embed_dim)) g embed_dim).
          - 1 / sqrt (real embed_dim) \<le> x \<and> x \<le> 1 / sqrt (real embed_dim))"
proof -
  let ?n = "length vocab"
  let ?m1 = "(replicate ?n (replicate embed_dim (0::real)))[1 := np_random_uniform (- 1 / sqrt (real embed_dim)) (1 / sqrt (real embed_dim)) g embed_dim]"
  from keys have dl: "dict_len vocab = ?n" by (simp add: dict_len_def distinct_remdups_id)
  from ret dl obtain wv where n2: "2 \<le> ?n"
    and wv: "load_loop parse_float vocab embed_dim file_lines Map.empty = Inr wv"
    and al: "assign_loop embed_dim wv vocab ?m1 = Inr M"
    by (auto simp: build_embedding_matrix_def load_word_vec_def Let_def bindE_Inr split: if_splits)
  have init: "?m1 ! i = (if i = 1 then np_random_uniform (- 1 / sqrt (real embed_dim)) (1 / sqrt (real embed_dim)) g embed_dim else replicate embed_dim 0)"
    if "i < ?n" for i
    using that by (simp add: nth_list_update)
  have rows1: "\<forall>r\<in>set ?m1. length r = embed_dim"
    using set_update_subset_insert [of "replicate ?n (replicate embed_dim (0::real))" 1
        "np_random_uniform (- 1 / sqrt (real embed_dim)) (1 / sqrt (real embed_dim)) g embed_dim"] by (auto simp: np_random_uniform_def)
  note B = assign_loop_rows [OF al idxs]
  from B have len: "length M = ?n" by simp
  have rl: "\<forall>r\<in>set M. length r = embed_dim" using assign_loop_row_lengths [OF al rows1] .
  have words: "case find (\<lambda>l. line_word embed_dim l = w) (rev file_lines) of
            Some l \<Rightarrow> i < length vocab \<and>
              (\<exists>vec. np_asarray parse_float (line_vec embed_dim l) = Inr vec \<and>
                 M ! i = (if length vec = embed_dim then vec else replicate embed_dim (hd vec)))
          | None \<Rightarrow> i < length vocab \<longrightarrow>
              M ! i = (if i = 1 then np_random_uniform (- 1 / sqrt (real embed_dim)) (1 / sqrt (real embed_dim)) g embed_dim else replicate embed_dim 0)"
    if wi: "(w, i) \<in> set vocab" for w i
  proof (cases "find (\<lambda>l. line_word embed_dim l = w) (rev file_lines)")
    case None
    from wi have "w \<in> set (map fst vocab)" by force
    with load_loop_lookup [OF wv, of w] None have nv: "wv w = None" by simp
    have "M ! i = ?m1 ! i" if lt: "i < ?n"
    proof -
      have "\<forall>(w', j)\<in>set vocab. j = i \<longrightarrow> wv w' = None"
      proof (clarify)
        fix w' assume "(w', i) \<in> set vocab"
        with wi idxs have "w' = w" by (metis distinct_snd_unique)
        with nv show "wv w' = None" by simp
      qed
      with B lt show ?thesis by simp
    qed
    with init None show ?thesis by simp
  next
    case (Some l)
    from wi have "w \<in> set (map fst vocab)" by force
    with load_loop_lookup [OF wv, of w] Some obtain vec where
      v: "np_asarray parse_float (line_vec embed_dim l) = Inr vec" and s: "wv w = Some vec"
      by auto
    from B wi s have "i < ?n \<and> M ! i = (if length vec = embed_dim then vec else replicate embed_dim (hd vec))"
      by auto
    with v Some show ?thesis by auto
  qed
  have free: "M ! i = (if i = 1 then np_random_uniform (- 1 / sqrt (real embed_dim)) (1 / sqrt (real embed_dim)) g embed_dim else replicate embed_dim 0)"
    if "i < ?n" and "i \<notin> snd ` set vocab" for i
  proof -
    from that(2) have "\<forall>(w', j)\<in>set vocab. j = i \<longrightarrow> wv w' = None" by force
    with B that(1) have "M ! i = ?m1 ! i" by simp
    with init that(1) show ?thesis by simp
  qed
  have w2: "\<forall>(w, i)\<in>set vocab.
         (case find (\<lambda>l. line_word embed_dim l = w) (rev file_lines) of
            Some l \<Rightarrow> i < length vocab \<and>
              (\<exists>vec. np_asarray parse_float (line_vec embed_dim l) = Inr vec \<and>
                 M ! i = (if length vec = embed_dim then vec else replicate embed_dim (hd vec)))
          | None \<Rightarrow> i < length vocab \<longrightarrow>
              M ! i = (if i = 1 then np_random_uniform (- 1 / sqrt (real embed_dim)) (1 / sqrt (real embed_dim)) g embed_dim else replicate embed_dim 0))"
  proof (rule ballI)
    fix p assume pin: "p \<in> set vocab"
    obtain w i where p: "p = (w, i)" by (cases p)
    from pin show "case p of (w, i) \<Rightarrow>
         (case find (\<lambda>l. line_word embed_dim l = w) (rev file_lines) of
            Some l \<Rightarrow> i < length vocab \<and>
              (\<exists>vec. np_asarray parse_float (line_vec embed_dim l) = Inr vec \<and>
                 M ! i = (if length vec = embed_dim then vec else replicate embed_dim (hd vec)))
          | None \<Rightarrow> i < length vocab \<longrightarrow>
              M ! i = (if i = 1 then np_random_uniform (- 1 / sqrt (real embed_dim)) (1 / sqrt (real embed_dim)) g embed_dim else replicate embed_dim 0))"
      unfolding p prod.case by (rule words)
  qed
  have f2: "\<forall>i<length vocab. i \<notin> snd ` set vocab \<longrightarrow>
          M ! i = (if i = 1 then np_random_uniform (- 1 / sqrt (real embed_dim)) (1 / sqrt (real embed_dim)) g embed_dim else replicate embed_dim 0)"
    using free by blast
  have "- 1 / sqrt (real embed_dim) \<le> 1 / sqrt (real embed_dim)" by simp
  then have b2: "\<forall>x\<in>set (np_random_uniform (- 1 / sqrt (real embed_dim)) (1 / sqrt (real embed_dim)) g embed_dim).
          - 1 / sqrt (real embed_dim) \<le> x \<and> x \<le> 1 / sqrt (real embed_dim)"
    using np_random_uniform_bounds by blast
  show ?thesis
    apply (intro conjI)
        apply (rule len)
       apply (rule rl)
      apply (rule w2)
     apply (rule f2)
    apply (rule b2)
    done
qed


theorem build_embedding_matrix_rows_witness:
  "\<exists>M. build_embedding_matrix int_parser (\<lambda>_. 2 ^ 51)
          [''c 7 7 7 7'', ''c 1 2 3 4'', ''new york 3 3 3 3'', ''d 5 5 5 5'']
          [(''a'', 0), (''b'', 1), (''c'', 2), (''new york'', 3)] 4 = Inr M
     \<and> length M = 4 \<and> M ! 0 = [0, 0, 0, 0] \<and> M ! 1 = [- 1 / 4, - 1 / 4, - 1 / 4, - 1 / 4]
     \<and> M ! 2 = [1, 2, 3, 4] \<and> M ! 3 = [3, 3, 3, 3]
     \<and> - 1 / sqrt (real 4) \<le> hd (M ! 1) \<and> hd (M ! 1) \<le> 1 / sqrt (real 4)"
proof -
  let ?F = "[''c 7 7 7 7'', ''c 1 2 3 4'', ''new york 3 3 3 3'', ''d 5 5 5 5'']"
  let ?V = "[(''a'', 0::nat), (''b'', 1), (''c'', 2), (''new york'', 3)]"
  let ?M = "[[0, 0, 0, 0], [- 1 / 4, - 1 / 4, - 1 / 4, - 1 / 4], [1, 2, 3, 4], [3, 3, 3, 3::real]]"
  let ?U = "np_random_uniform (- 1 / sqrt (real 4)) (1 / sqrt (real 4)) (\<lambda>_. 2 ^ 51) 4"
  have lw: "line_word 4 ''c 7 7 7 7'' = ''c''" "line_word 4 ''c 1 2 3 4'' = ''c''"
    "line_word 4 ''new york 3 3 3 3'' = ''new york''" "line_word 4 ''d 5 5 5 5'' = ''d''"
    by code_simp+
  have lv: "np_asarray int_parser (line_vec 4 ''c 7 7 7 7'') = Inr [7, 7, 7, 7]"
    "np_asarray int_parser (line_vec 4 ''c 1 2 3 4'') = Inr [1, 2, 3, 4]"
    "np_asarray int_parser (line_vec 4 ''new york 3 3 3 3'') = Inr [3, 3, 3, 3]"
    by code_simp+
  have r: "[0..<4] = [0, 1, 2, 3::nat]" by code_simp
  have rs: "random_sample (\<lambda>_. 2 ^ 51) j = 1 / 4" for j
    by (simp add: random_sample_def)
  have u: "?U = [- 1 / 4, - 1 / 4, - 1 / 4, - 1 / 4]"
    unfolding np_random_uniform_def r rs by simp
  have z: "replicate 4 (0::real) = [0, 0, 0, 0]" by code_simp
  have h: "build_embedding_matrix int_parser (\<lambda>_. 2 ^ 51) ?F ?V 4 = Inr ?M"
    unfolding build_embedding_matrix_def u z using lw lv
    by (simp add: dict_len_def load_word_vec_def Let_def bindE_def)
  have k1: "distinct (map fst ?V)" and k2: "distinct (map snd ?V)" by simp_all
  note t = build_embedding_matrix_rows [OF h k1 k2]
  from t have len: "length ?M = length ?V" by (rule conjunct1)
  from t have w: "\<forall>(w, i)\<in>set ?V.
         (case find (\<lambda>l. line_word 4 l = w) (rev ?F) of
            Some l \<Rightarrow> i < length ?V \<and>
              (\<exists>vec. np_asarray int_parser (line_vec 4 l) = Inr vec \<and>
                 ?M ! i = (if length vec = 4 then vec else replicate 4 (hd vec)))
          | None \<Rightarrow> i < length ?V \<longrightarrow>
              ?M ! i = (if i = 1 then ?U else replicate 4 0))"
    by (rule conjunct1 [OF conjunct2 [OF conjunct2]])
  from t have b: "\<forall>x\<in>set ?U. - 1 / sqrt (real 4) \<le> x \<and> x \<le> 1 / sqrt (real 4)"
    by (rule conjunct2 [OF conjunct2 [OF conjunct2 [OF conjunct2]]])
  have fa: "find (\<lambda>l. line_word 4 l = ''a'') (rev ?F) = None" by code_simp
  have fb: "find (\<lambda>l. line_word 4 l = ''b'') (rev ?F) = None" by code_simp
  have fc: "find (\<lambda>l. line_word 4 l = ''c'') (rev ?F) = Some ''c 1 2 3 4''" by code_simp
  from w have "case (''a'', 0::nat) of (w, i) \<Rightarrow>
         (case find (\<lambda>l. line_word 4 l = w) (rev ?F) of
            Some l \<Rightarrow> i < length ?V \<and>
              (\<exists>vec. np_asarray int_parser (line_vec 4 l) = Inr vec \<and>
                 ?M ! i = (if length vec = 4 then vec else replicate 4 (hd vec)))
          | None \<Rightarrow> i < length ?V \<longrightarrow>
              ?M ! i = (if i = 1 then ?U else replicate 4 0))"
    by (rule bspec) simp
  then have r0: "?M ! 0 = [0, 0, 0, 0]" unfolding prod.case fa z by simp
  from w have "case (''b'', 1::nat) of (w, i) \<Rightarrow>
         (case find (\<lambda>l. line_word 4 l = w) (rev ?F) of
            Some l \<Rightarrow> i < length ?V \<and>
              (\<exists>vec. np_asarray int_parser (line_vec 4 l) = Inr vec \<and>
                 ?M ! i = (if length vec = 4 then vec else replicate 4 (hd vec)))
          | None \<Rightarrow> i < length ?V \<longrightarrow>
              ?M ! i = (if i = 1 then ?U else replicate 4 0))"
    by (rule bspec) simp
  then have r1: "?M ! 1 = ?U" unfolding prod.case fb by simp
  have "hd ?U \<in> set ?U" unfolding u by simp
  with b have "- 1 / sqrt (real 4) \<le> hd ?U \<and> hd ?U \<le> 1 / sqrt (real 4)" by blast
  with r1 have b1: "- 1 / sqrt (real 4) \<le> hd (?M ! 1) \<and> hd (?M ! 1) \<le> 1 / sqrt (real 4)"
    by (simp only:)
  from w have "case (''c'', 2::nat) of (w, i) \<Rightarrow>
         (case find (\<lambda>l. line_word 4 l = w) (rev ?F) of
            Some l \<Rightarrow> i < length ?V \<and>
              (\<exists>vec. np_asarray int_parser (line_vec 4 l) = Inr vec \<and>
                 ?M ! i = (if length vec = 4 then vec else replicate 4 (hd vec)))
          | None \<Rightarrow> i < length ?V \<longrightarrow>
              ?M ! i = (if i = 1 then ?U else replicate 4 0))"
    by (rule bspec) simp
  then have r2: "?M ! 2 = [1, 2, 3, 4]" unfolding prod.case fc option.case lv by auto
  have r13: "?M ! 1 = [- 1 / 4, - 1 / 4, - 1 / 4, - 1 / 4]" "?M ! 3 = [3, 3, 3, 3]" by simp_all
  have l4: "length ?M = 4" by simp
  show ?thesis
    apply (rule exI [of _ ?M])
    apply (intro conjI h l4 r0 r13 r2 conjunct1 [OF b1] conjunct2 [OF b1])
    done
qed

text \<open>
  C5 as stated fails for row 0: when the word of index 0 has a line in the vector file, row 0
  holds that line's vector.
\<close>

theorem build_embedding_matrix_row0_counterexample:
  "build_embedding_matrix int_parser (\<lambda>_. 0) [''a 7''] [(''a'', 0), (''b'', 1)] 1
     = Inr [[7], [- 1]]"
proof -
  have lw: "line_word 1 ''a 7'' = ''a''" by code_simp
  have lv: "np_asarray int_parser (line_vec 1 ''a 7'') = Inr [7]" by code_simp
  show ?thesis
    using lw lv
    by (simp add: build_embedding_matrix_def dict_len_def load_word_vec_def Let_def bindE_def
        np_random_uniform_def random_sample_def)
qed

end
